theory Spec2Isabelle
  imports Main
begin

section \<open>Data model\<close>

text \<open>
  The scripts read three JSON documents. A Python \<open>dict\<close> keeps its keys in insertion
  order and the report is produced by iterating over such dicts, so a dict is an
  association list: the position of a key is the moment of its first insertion.
\<close>

type_synonym ('k, 'v) dict = "('k \<times> 'v) list"

datatype error = KeyError

text \<open>\<open>k in d\<close> is \<open>map_of d k \<noteq> None\<close>; \<open>d[k]\<close> raises on a missing key.\<close>

definition dict_get :: "('k, 'v) dict \<Rightarrow> 'k \<Rightarrow> error + 'v" where
  "dict_get d k = (case map_of d k of None \<Rightarrow> Inl KeyError | Some v \<Rightarrow> Inr v)"

text \<open>\<open>d[k] = v\<close>: an existing key keeps its position, a new key goes to the end.\<close>

fun dict_set :: "('k, 'v) dict \<Rightarrow> 'k \<Rightarrow> 'v \<Rightarrow> ('k, 'v) dict" where
  "dict_set [] k v = [(k, v)]"
| "dict_set ((k', v') # d) k v =
     (if k' = k then (k, v) # d else (k', v') # dict_set d k v)"

text \<open>The reading \<open>d[k] if k in d else 0\<close> used by the report.\<close>

definition get_or_zero :: "('k, int) dict \<Rightarrow> 'k \<Rightarrow> int" where
  "get_or_zero d k = (case map_of d k of None \<Rightarrow> 0 | Some n \<Rightarrow> n)"

text \<open>An entry of \<open>/lol-loot/v1/player-loot\<close>, with the fields the scripts read.\<close>

record loot_item =
  displayCategories :: string
  itemStatus :: string
  disenchantRecipeName :: "string option"
  parentStoreItemId :: int
  loot_value :: int
  loot_count :: int

text \<open>The inner dict \<open>{"owned": 0, "not_owned": 0}\<close> of the tier statistics.\<close>

record tier =
  owned :: int
  not_owned :: int

section \<open>Skin shards statistics (shards.py)\<close>

definition skin_shards :: "loot_item list \<Rightarrow> loot_item list" where
  "skin_shards player_loot = filter (\<lambda>item. displayCategories item = ''SKIN'') player_loot"

definition shard_prices :: "loot_item list \<Rightarrow> int list" where
  "shard_prices player_loot = map loot_value (skin_shards player_loot)"

text \<open>The dict comprehension \<open>{k: {"owned": 0, "not_owned": 0} for k in shard_prices}\<close>.\<close>

fun init_categories :: "int list \<Rightarrow> (int, tier) dict \<Rightarrow> (int, tier) dict" where
  "init_categories [] d = d"
| "init_categories (k # ks) d = init_categories ks (dict_set d k \<lparr>owned = 0, not_owned = 0\<rparr>)"

text \<open>The body of the loop over the shards; \<open>shard_categories[shard["value"]]\<close> is a lookup
  that raises on a missing tier.\<close>

definition shard_step :: "loot_item \<Rightarrow> (int, tier) dict \<Rightarrow> error + (int, tier) dict" where
  "shard_step shard d =
     (case dict_get d (loot_value shard) of
        Inl e \<Rightarrow> Inl e
      | Inr t \<Rightarrow>
          if itemStatus shard = ''OWNED''
          then Inr (dict_set d (loot_value shard) (t\<lparr>owned := owned t + loot_count shard\<rparr>))
          else Inr (dict_set d (loot_value shard)
                 (t\<lparr>not_owned := not_owned t + 1, owned := owned t + (loot_count shard - 1)\<rparr>)))"

fun shard_loop :: "loot_item list \<Rightarrow> (int, tier) dict \<Rightarrow> error + (int, tier) dict" where
  "shard_loop [] d = Inr d"
| "shard_loop (shard # rest) d =
     (case shard_step shard d of Inl e \<Rightarrow> Inl e | Inr d' \<Rightarrow> shard_loop rest d')"

text \<open>The value of \<open>shard_categories\<close> that \<open>SkinShardsStats.callback\<close> prints.\<close>

definition shard_categories :: "loot_item list \<Rightarrow> error + (int, tier) dict" where
  "shard_categories player_loot =
     shard_loop (skin_shards player_loot) (init_categories (shard_prices player_loot) [])"

text \<open>What the accounting rule adds up to, tier by tier, over a list of shards.\<close>

definition owned_total :: "int \<Rightarrow> loot_item list \<Rightarrow> int" where
  "owned_total t shards =
     sum_list (map (\<lambda>s. if itemStatus s = ''OWNED'' then loot_count s else loot_count s - 1)
                   (filter (\<lambda>s. loot_value s = t) shards))"

definition not_owned_total :: "int \<Rightarrow> loot_item list \<Rightarrow> int" where
  "not_owned_total t shards =
     int (length (filter (\<lambda>s. loot_value s = t \<and> itemStatus s \<noteq> ''OWNED'') shards))"

section \<open>Challenge collection statistics (challenges.py)\<close>

text \<open>A skin of the Meraki catalog and a champion, with the fields the script reads; the
  field \<open>id\<close> of the source is \<open>skin_id\<close> and \<open>champion_id\<close> here.\<close>

record skin =
  skin_id :: int
  isBase :: bool

record champion =
  champion_id :: int
  name :: string
  key :: string
  skins :: "skin list"

type_synonym catalog = "(string, champion) dict"

text \<open>An entry of \<open>/lol-inventory/v2/inventory/CHAMPION_SKIN\<close>.\<close>

record owned_item =
  itemId :: int

text \<open>The inner loop of \<open>get_skins_by_champion_key\<close>: base skins are skipped, the others
  appended.\<close>

fun collect_skins :: "skin list \<Rightarrow> skin list \<Rightarrow> skin list" where
  "collect_skins [] acc = acc"
| "collect_skins (s # rest) acc =
     (if isBase s then collect_skins rest acc else collect_skins rest (acc @ [s]))"

fun skins_loop :: "champion list \<Rightarrow> (string, skin list) dict \<Rightarrow> (string, skin list) dict" where
  "skins_loop [] d = d"
| "skins_loop (c # cs) d = skins_loop cs (dict_set d (key c) (collect_skins (skins c) []))"

definition get_skins_by_champion_key :: "catalog \<Rightarrow> (string, skin list) dict" where
  "get_skins_by_champion_key champ_json = skins_loop (map snd champ_json) []"

text \<open>The counting idiom of both joins: \<open>d[k] = 1\<close> for a new key, \<open>d[k] += 1\<close> otherwise.\<close>

definition bump :: "(int, int) dict \<Rightarrow> int \<Rightarrow> (int, int) dict" where
  "bump d k = (case map_of d k of None \<Rightarrow> dict_set d k 1 | Some n \<Rightarrow> dict_set d k (n + 1))"

fun unowned_loop :: "loot_item list \<Rightarrow> (int, int) dict \<Rightarrow> (int, int) dict" where
  "unowned_loop [] d = d"
| "unowned_loop (item # rest) d =
     unowned_loop rest
       (if itemStatus item \<noteq> ''OWNED''
        then (if disenchantRecipeName item = Some ''SKIN_RENTAL_disenchant''
              then bump d (parentStoreItemId item) else d)
        else d)"

definition get_unowned_shards_by_champion_id :: "loot_item list \<Rightarrow> (int, int) dict" where
  "get_unowned_shards_by_champion_id loot = unowned_loop loot []"

text \<open>\<open>get_owned_skins_by_champion_id\<close>: the loop over the skins of one entry, then the
  loop over the entries. The lookup \<open>champ_json[champion_key]\<close> is made only for an owned
  skin and raises on a missing key.\<close>

fun owned_inner ::
  "catalog \<Rightarrow> int list \<Rightarrow> string \<Rightarrow> skin list \<Rightarrow> (int, int) dict \<Rightarrow> error + (int, int) dict" where
  "owned_inner champ_json owned_skin_ids champion_key [] d = Inr d"
| "owned_inner champ_json owned_skin_ids champion_key (s # rest) d =
     (if skin_id s \<in> set owned_skin_ids
      then (case dict_get champ_json champion_key of
              Inl e \<Rightarrow> Inl e
            | Inr c \<Rightarrow> owned_inner champ_json owned_skin_ids champion_key rest
                        (bump d (champion_id c)))
      else owned_inner champ_json owned_skin_ids champion_key rest d)"

fun owned_outer ::
  "catalog \<Rightarrow> int list \<Rightarrow> (string, skin list) dict \<Rightarrow> (int, int) dict \<Rightarrow> error + (int, int) dict" where
  "owned_outer champ_json owned_skin_ids [] d = Inr d"
| "owned_outer champ_json owned_skin_ids ((champion_key, ss) # rest) d =
     (case owned_inner champ_json owned_skin_ids champion_key ss d of
        Inl e \<Rightarrow> Inl e
      | Inr d' \<Rightarrow> owned_outer champ_json owned_skin_ids rest d')"

definition get_owned_skins_by_champion_id ::
  "(string, skin list) dict \<Rightarrow> catalog \<Rightarrow> owned_item list \<Rightarrow> error + (int, int) dict" where
  "get_owned_skins_by_champion_id skins_by_champion_key champ_json inventory =
     owned_outer champ_json (map itemId inventory) skins_by_champion_key []"

text \<open>The rows that \<open>ChallengeCollectionStats.callback\<close> hands to the table, in the order of
  \<open>skins_by_champion_key.items()\<close>; a lookup that raises ends the run before anything is
  printed.\<close>

type_synonym row = "string \<times> int \<times> int \<times> int"

fun rows_loop ::
  "catalog \<Rightarrow> (int, int) dict \<Rightarrow> (int, int) dict \<Rightarrow> (string, skin list) dict \<Rightarrow> error + row list" where
  "rows_loop champ_json unowned_shards owned_skins [] = Inr []"
| "rows_loop champ_json unowned_shards owned_skins ((champion_key, ss) # rest) =
     (case dict_get champ_json champion_key of
        Inl e \<Rightarrow> Inl e
      | Inr c \<Rightarrow>
          (case rows_loop champ_json unowned_shards owned_skins rest of
             Inl e \<Rightarrow> Inl e
           | Inr rows \<Rightarrow>
               Inr ((name c, int (length ss),
                     get_or_zero unowned_shards (champion_id c),
                     get_or_zero owned_skins (champion_id c)
                       + get_or_zero unowned_shards (champion_id c)) # rows)))"

definition table_rows :: "catalog \<Rightarrow> loot_item list \<Rightarrow> owned_item list \<Rightarrow> error + row list" where
  "table_rows champ_json loot inventory =
     (let skins_by_champion_key = get_skins_by_champion_key champ_json;
          unowned_shards = get_unowned_shards_by_champion_id loot
      in case get_owned_skins_by_champion_id skins_by_champion_key champ_json inventory of
           Inl e \<Rightarrow> Inl e
         | Inr owned_skins \<Rightarrow> rows_loop champ_json unowned_shards owned_skins skins_by_champion_key)"

text \<open>The catalog document as the data model describes it: a champion is identified by its
  string key, which its \<open>key\<close> field repeats, and by its numeric id.\<close>

definition catalog_keys_ok :: "catalog \<Rightarrow> bool" where
  "catalog_keys_ok champ_json \<longleftrightarrow>
     distinct (map fst champ_json) \<and> list_all (\<lambda>(k, c). key c = k) champ_json"

definition catalog_ids_ok :: "catalog \<Rightarrow> bool" where
  "catalog_ids_ok champ_json \<longleftrightarrow> distinct (map (\<lambda>(k, c). champion_id c) champ_json)"

definition non_base :: "champion \<Rightarrow> skin list" where
  "non_base c = filter (\<lambda>s. \<not> isBase s) (skins c)"

section \<open>Example documents\<close>

definition example_loot :: "loot_item list" where
  "example_loot =
     [\<lparr>displayCategories = ''SKIN'', itemStatus = ''OWNED'', disenchantRecipeName = None,
       parentStoreItemId = 266, loot_value = 520, loot_count = 3\<rparr>,
      \<lparr>displayCategories = ''SKIN'', itemStatus = ''NOT_OWNED'',
       disenchantRecipeName = Some ''SKIN_RENTAL_disenchant'',
       parentStoreItemId = 266, loot_value = 520, loot_count = 1\<rparr>,
      \<lparr>displayCategories = ''CHAMPION'', itemStatus = ''NOT_OWNED'',
       disenchantRecipeName = Some ''CHAMPION_RENTAL_disenchant'',
       parentStoreItemId = 0, loot_value = 520, loot_count = 7\<rparr>,
      \<lparr>displayCategories = ''SKIN'', itemStatus = ''NOT_OWNED'',
       disenchantRecipeName = Some ''SKIN_RENTAL_disenchant'',
       parentStoreItemId = 103, loot_value = 1350, loot_count = 2\<rparr>]"

definition zero_count_loot :: "loot_item list" where
  "zero_count_loot =
     [\<lparr>displayCategories = ''SKIN'', itemStatus = ''NOT_OWNED'',
       disenchantRecipeName = Some ''SKIN_RENTAL_disenchant'',
       parentStoreItemId = 266, loot_value = 520, loot_count = 0\<rparr>]"

definition anomalous_loot :: "loot_item list" where
  "anomalous_loot =
     [\<lparr>displayCategories = ''SKIN'', itemStatus = ''OWNED'', disenchantRecipeName = None,
       parentStoreItemId = 266, loot_value = 520, loot_count = 3\<rparr>,
      \<lparr>displayCategories = ''SKIN'', itemStatus = ''NOT_OWNED'',
       disenchantRecipeName = Some ''SKIN_RENTAL_disenchant'',
       parentStoreItemId = 266, loot_value = 520, loot_count = 0\<rparr>]"

definition regular_loot :: "loot_item list" where
  "regular_loot =
     [\<lparr>displayCategories = ''SKIN'', itemStatus = ''OWNED'', disenchantRecipeName = None,
       parentStoreItemId = 266, loot_value = 520, loot_count = 2\<rparr>,
      \<lparr>displayCategories = ''SKIN'', itemStatus = ''NOT_OWNED'',
       disenchantRecipeName = Some ''SKIN_RENTAL_disenchant'',
       parentStoreItemId = 266, loot_value = 520, loot_count = 1\<rparr>]"

definition example_catalog :: catalog where
  "example_catalog =
     [(''Aatrox'', \<lparr>champion_id = 266, name = ''Aatrox'', key = ''Aatrox'',
         skins = [\<lparr>skin_id = 266000, isBase = True\<rparr>, \<lparr>skin_id = 266001, isBase = False\<rparr>,
                  \<lparr>skin_id = 266002, isBase = False\<rparr>]\<rparr>),
      (''Ahri'', \<lparr>champion_id = 103, name = ''Ahri'', key = ''Ahri'',
         skins = [\<lparr>skin_id = 103001, isBase = False\<rparr>, \<lparr>skin_id = 103000, isBase = True\<rparr>]\<rparr>),
      (''Zilean'', \<lparr>champion_id = 26, name = ''Zilean'', key = ''Zilean'',
         skins = [\<lparr>skin_id = 26000, isBase = True\<rparr>]\<rparr>)]"

definition example_inventory :: "owned_item list" where
  "example_inventory = [\<lparr>itemId = 266001\<rparr>, \<lparr>itemId = 999\<rparr>, \<lparr>itemId = 266001\<rparr>]"

definition example_inventory_nodup :: "owned_item list" where
  "example_inventory_nodup = [\<lparr>itemId = 999\<rparr>, \<lparr>itemId = 266001\<rparr>]"

definition foreign_loot :: "loot_item list" where
  "foreign_loot =
     [\<lparr>displayCategories = ''CHAMPION'', itemStatus = ''NOT_OWNED'',
       disenchantRecipeName = Some ''SKIN_RENTAL_disenchant'',
       parentStoreItemId = 266, loot_value = 520, loot_count = 1\<rparr>]"

text \<open>Two documents that break the identification of champions by key and by id.\<close>

definition mismatched_catalog :: catalog where
  "mismatched_catalog =
     [(''Aatrox'', \<lparr>champion_id = 266, name = ''Aatrox'', key = ''aatrox'',
         skins = [\<lparr>skin_id = 266001, isBase = False\<rparr>]\<rparr>)]"

definition shared_id_catalog :: catalog where
  "shared_id_catalog =
     [(''Aatrox'', \<lparr>champion_id = 266, name = ''Aatrox'', key = ''Aatrox'',
         skins = [\<lparr>skin_id = 266001, isBase = False\<rparr>]\<rparr>),
      (''Ahri'', \<lparr>champion_id = 266, name = ''Ahri'', key = ''Ahri'',
         skins = [\<lparr>skin_id = 103001, isBase = False\<rparr>]\<rparr>)]"

section \<open>Dictionary lemmas\<close>

lemma map_of_dict_set: "map_of (dict_set d k v) = (map_of d)(k \<mapsto> v)"
  by (induction d k v rule: dict_set.induct) (auto simp: fun_eq_iff)

lemma keys_dict_set:
  "map fst (dict_set d k v) = (if k \<in> set (map fst d) then map fst d else map fst d @ [k])"
  by (induction d k v rule: dict_set.induct) auto

lemma dict_set_present: "map_of d k \<noteq> None \<Longrightarrow> map fst (dict_set d k v) = map fst d"
  by (simp add: keys_dict_set map_of_eq_None_iff)

lemma dict_set_absent: "map_of d k = None \<Longrightarrow> dict_set d k v = d @ [(k, v)]"
  by (induction d k v rule: dict_set.induct) (auto split: if_splits)

section \<open>The tier statistics in closed form\<close>

lemma map_of_init_categories:
  "map_of (init_categories ks d) t =
     (if t \<in> set ks then Some \<lparr>owned = 0, not_owned = 0\<rparr> else map_of d t)"
  by (induction ks arbitrary: d) (auto simp: map_of_dict_set)

lemma distinct_init_categories:
  "distinct (map fst d) \<Longrightarrow> distinct (map fst (init_categories ks d))"
  by (induction ks arbitrary: d) (auto simp: keys_dict_set)

lemma owned_total_Cons:
  "owned_total t (s # ss) =
     (if loot_value s = t
      then (if itemStatus s = ''OWNED'' then loot_count s else loot_count s - 1) + owned_total t ss
      else owned_total t ss)"
  by (simp add: owned_total_def)

lemma not_owned_total_Cons:
  "not_owned_total t (s # ss) =
     (if loot_value s = t \<and> itemStatus s \<noteq> ''OWNED'' then 1 + not_owned_total t ss
      else not_owned_total t ss)"
  by (simp add: not_owned_total_def)

lemma shard_step_present:
  assumes "map_of d (loot_value s) = Some r"
  shows "shard_step s d =
     Inr (dict_set d (loot_value s)
       (if itemStatus s = ''OWNED'' then r\<lparr>owned := owned r + loot_count s\<rparr>
        else r\<lparr>not_owned := not_owned r + 1, owned := owned r + (loot_count s - 1)\<rparr>))"
  using assms by (simp add: shard_step_def dict_get_def)

text \<open>The loop started on any dict that already holds every tier of the shards: it never
  raises, keeps the keys, and adds the totals to each tier.\<close>

lemma shard_loop_closed:
  assumes "\<forall>s \<in> set ss. map_of d (loot_value s) \<noteq> None"
  shows "\<exists>d'. shard_loop ss d = Inr d' \<and> map fst d' = map fst d \<and>
           (\<forall>t. map_of d' t =
              map_option (\<lambda>r. \<lparr>owned = owned r + owned_total t ss,
                               not_owned = not_owned r + not_owned_total t ss\<rparr>) (map_of d t))"
  using assms
proof (induction ss arbitrary: d)
  case Nil
  have "(\<lambda>r::tier. \<lparr>owned = owned r, not_owned = not_owned r\<rparr>) = id"
    by (simp add: fun_eq_iff)
  then show ?case
    by (simp add: owned_total_def not_owned_total_def option.map_id)
next
  case (Cons s ss)
  from Cons.prems obtain r where r: "map_of d (loot_value s) = Some r"
    by auto
  define r' where "r' = (if itemStatus s = ''OWNED'' then r\<lparr>owned := owned r + loot_count s\<rparr>
        else r\<lparr>not_owned := not_owned r + 1, owned := owned r + (loot_count s - 1)\<rparr>)"
  define d1 where "d1 = dict_set d (loot_value s) r'"
  have step: "shard_step s d = Inr d1"
    using shard_step_present [OF r] by (simp add: d1_def r'_def)
  have keys1: "map fst d1 = map fst d"
    using r by (simp add: d1_def dict_set_present)
  have look1: "map_of d1 = (map_of d)(loot_value s \<mapsto> r')"
    by (simp add: d1_def map_of_dict_set)
  have "\<forall>x \<in> set ss. map_of d1 (loot_value x) \<noteq> None"
    using Cons.prems by (simp add: look1)
  from Cons.IH [OF this] obtain d' where d':
    "shard_loop ss d1 = Inr d'" "map fst d' = map fst d1"
    "\<And>t. map_of d' t =
        map_option (\<lambda>r. \<lparr>owned = owned r + owned_total t ss,
                         not_owned = not_owned r + not_owned_total t ss\<rparr>) (map_of d1 t)"
    by blast
  have "map_of d' t =
        map_option (\<lambda>r. \<lparr>owned = owned r + owned_total t (s # ss),
                         not_owned = not_owned r + not_owned_total t (s # ss)\<rparr>) (map_of d t)" for t
  proof (cases "t = loot_value s")
    case True
    then show ?thesis
      using r by (simp add: d'(3) look1 r'_def owned_total_Cons not_owned_total_Cons)
  next
    case False
    then show ?thesis
      by (simp add: d'(3) look1 owned_total_Cons not_owned_total_Cons)
  qed
  then show ?case
    using step d'(1,2) keys1 by simp
qed

lemma shard_categories_closed:
  "\<exists>d. shard_categories loot = Inr d \<and> distinct (map fst d) \<and>
     (\<forall>t. map_of d t =
        (if t \<in> set (shard_prices loot)
         then Some \<lparr>owned = owned_total t (skin_shards loot),
                    not_owned = not_owned_total t (skin_shards loot)\<rparr>
         else None))"
proof -
  let ?d0 = "init_categories (shard_prices loot) []"
  have "\<forall>s \<in> set (skin_shards loot). map_of ?d0 (loot_value s) \<noteq> None"
    by (simp add: map_of_init_categories shard_prices_def)
  from shard_loop_closed [OF this] obtain d where d:
    "shard_loop (skin_shards loot) ?d0 = Inr d" "map fst d = map fst ?d0"
    "\<And>t. map_of d t =
        map_option (\<lambda>r. \<lparr>owned = owned r + owned_total t (skin_shards loot),
                         not_owned = not_owned r + not_owned_total t (skin_shards loot)\<rparr>)
          (map_of ?d0 t)"
    by blast
  have "distinct (map fst d)"
    using d(2) distinct_init_categories [of "[]" "shard_prices loot"] by simp
  moreover have "map_of d t =
        (if t \<in> set (shard_prices loot)
         then Some \<lparr>owned = owned_total t (skin_shards loot),
                    not_owned = not_owned_total t (skin_shards loot)\<rparr>
         else None)" for t
    by (simp add: d(3) map_of_init_categories)
  ultimately show ?thesis
    using d(1) by (simp add: shard_categories_def)
qed

lemma owned_plus_not_owned_total:
  "owned_total t ss + not_owned_total t ss =
     sum_list (map loot_count (filter (\<lambda>s. loot_value s = t) ss))"
  by (induction ss) (simp_all add: owned_total_def not_owned_total_def)

lemma owned_total_append: "owned_total t (xs @ ys) = owned_total t xs + owned_total t ys"
  by (simp add: owned_total_def)

lemma not_owned_total_append:
  "not_owned_total t (xs @ ys) = not_owned_total t xs + not_owned_total t ys"
  by (simp add: not_owned_total_def)

section \<open>Claims about the tier statistics\<close>

text \<open>
  C1 (tier accounting rule). Only the records with display category \<open>SKIN\<close> are looked at.
  The computation returns a dict whose keys are the prices of these records, and at each
  price the \<open>owned\<close> counter is the sum, over the records of that price, of \<open>count\<close> for a
  record with status \<open>OWNED\<close> and of \<open>count - 1\<close> for any other record, while the
  \<open>not_owned\<close> counter is the number of records of that price whose status is not \<open>OWNED\<close>
  (each adds exactly 1).
\<close>

theorem tier_accounting_rule:
  "\<exists>d. shard_categories loot = Inr d \<and>
     (\<forall>t. map_of d t =
        (if t \<in> set (map loot_value (filter (\<lambda>s. displayCategories s = ''SKIN'') loot))
         then Some \<lparr>owned =
                      (\<Sum>s \<leftarrow> filter (\<lambda>s. displayCategories s = ''SKIN'' \<and> loot_value s = t) loot.
                          if itemStatus s = ''OWNED'' then loot_count s else loot_count s - 1),
                    not_owned =
                      int (length (filter (\<lambda>s. displayCategories s = ''SKIN'' \<and> loot_value s = t
                                                \<and> itemStatus s \<noteq> ''OWNED'') loot))\<rparr>
         else None))"
proof -
  have set_eq: "shard_prices loot = map loot_value (filter (\<lambda>s. displayCategories s = ''SKIN'') loot)"
    by (simp add: shard_prices_def skin_shards_def)
  have o: "owned_total t (skin_shards loot) =
      (\<Sum>s \<leftarrow> filter (\<lambda>s. displayCategories s = ''SKIN'' \<and> loot_value s = t) loot.
          if itemStatus s = ''OWNED'' then loot_count s else loot_count s - 1)" for t
    by (simp add: owned_total_def skin_shards_def conj_commute)
  have n: "not_owned_total t (skin_shards loot) =
      int (length (filter (\<lambda>s. displayCategories s = ''SKIN'' \<and> loot_value s = t
                                \<and> itemStatus s \<noteq> ''OWNED'') loot))" for t
    by (simp add: not_owned_total_def skin_shards_def conj_commute)
  from shard_categories_closed [of loot] show ?thesis
    unfolding set_eq o n by blast
qed

theorem tier_accounting_rule_witness:
  "\<exists>d. shard_categories example_loot = Inr d \<and>
     map_of d 520 = Some \<lparr>owned = 3, not_owned = 1\<rparr> \<and>
     map_of d 1350 = Some \<lparr>owned = 1, not_owned = 1\<rparr> \<and>
     map_of d 975 = None"
proof -
  from tier_accounting_rule [of example_loot] obtain d where
    d: "shard_categories example_loot = Inr d" and
    look: "\<And>t. map_of d t =
        (if t \<in> set (map loot_value (filter (\<lambda>s. displayCategories s = ''SKIN'') example_loot))
         then Some \<lparr>owned =
                      (\<Sum>s \<leftarrow> filter (\<lambda>s. displayCategories s = ''SKIN'' \<and> loot_value s = t) example_loot.
                          if itemStatus s = ''OWNED'' then loot_count s else loot_count s - 1),
                    not_owned =
                      int (length (filter (\<lambda>s. displayCategories s = ''SKIN'' \<and> loot_value s = t
                                                \<and> itemStatus s \<noteq> ''OWNED'') example_loot))\<rparr>
         else None)"
    by blast
  have "map_of d 520 = Some \<lparr>owned = 3, not_owned = 1\<rparr>"
    unfolding look by (simp add: example_loot_def)
  moreover have "map_of d 1350 = Some \<lparr>owned = 1, not_owned = 1\<rparr>"
    unfolding look by (simp add: example_loot_def)
  moreover have "map_of d 975 = None"
    unfolding look by (simp add: example_loot_def)
  ultimately show ?thesis
    using d by blast
qed

text \<open>
  C3 (tier accounting identity). In a loot feed whose \<open>SKIN\<close> records all have
  \<open>count \<ge> 1\<close>, at every price tier \<open>t\<close> of the result, \<open>owned[t] + not_owned[t]\<close> is
  the sum of the \<open>count\<close> fields of the \<open>SKIN\<close> records of value \<open>t\<close>.
\<close>

theorem tier_accounting_identity:
  assumes "\<forall>s \<in> set loot. displayCategories s = ''SKIN'' \<longrightarrow> 1 \<le> loot_count s"
    and "t \<in> set (map loot_value (filter (\<lambda>s. displayCategories s = ''SKIN'') loot))"
  shows "\<exists>d r. shard_categories loot = Inr d \<and> map_of d t = Some r \<and>
           owned r + not_owned r =
             sum_list (map loot_count
               (filter (\<lambda>s. displayCategories s = ''SKIN'' \<and> loot_value s = t) loot))"
proof -
  from shard_categories_closed [of loot] obtain d where
    d: "shard_categories loot = Inr d" and
    look: "\<And>t. map_of d t =
        (if t \<in> set (shard_prices loot)
         then Some \<lparr>owned = owned_total t (skin_shards loot),
                    not_owned = not_owned_total t (skin_shards loot)\<rparr>
         else None)"
    by blast
  let ?r = "\<lparr>owned = owned_total t (skin_shards loot),
             not_owned = not_owned_total t (skin_shards loot)\<rparr>"
  have "map_of d t = Some ?r"
    using assms(2) by (simp add: look shard_prices_def skin_shards_def)
  moreover have "owned ?r + not_owned ?r =
      sum_list (map loot_count
        (filter (\<lambda>s. displayCategories s = ''SKIN'' \<and> loot_value s = t) loot))"
    by (simp add: owned_plus_not_owned_total skin_shards_def conj_commute)
  ultimately show ?thesis
    using d by blast
qed

theorem tier_accounting_identity_witness:
  "\<exists>d r. shard_categories example_loot = Inr d \<and> map_of d 520 = Some r \<and>
      owned r + not_owned r = 4"
proof -
  have h1: "\<forall>s \<in> set example_loot. displayCategories s = ''SKIN'' \<longrightarrow> 1 \<le> loot_count s"
    by (simp add: example_loot_def)
  have h2: "520 \<in> set (map loot_value (filter (\<lambda>s. displayCategories s = ''SKIN'') example_loot))"
    by (simp add: example_loot_def)
  have "sum_list (map loot_count
          (filter (\<lambda>s. displayCategories s = ''SKIN'' \<and> loot_value s = 520) example_loot)) = 4"
    by (simp add: example_loot_def)
  with tier_accounting_identity [OF h1 h2] show ?thesis
    by simp
qed

text \<open>
  C5 (zero-count anomaly). The claim asks that a non-owned \<open>SKIN\<close> record with
  \<open>count = 0\<close> be surfaced as a warning or an error value. The code has no such path: the
  record is processed like any other. A feed with such a record alone yields \<open>owned = -1\<close>
  without raising, and a feed with the anomaly and a feed without it can yield the same
  output, so nothing in the output tells them apart.
\<close>

theorem zero_count_not_surfaced:
  "shard_categories zero_count_loot = Inr [(520, \<lparr>owned = - 1, not_owned = 1\<rparr>)] \<and>
   shard_categories anomalous_loot = Inr [(520, \<lparr>owned = 2, not_owned = 1\<rparr>)] \<and>
   shard_categories regular_loot = Inr [(520, \<lparr>owned = 2, not_owned = 1\<rparr>)]"
  by (simp add: zero_count_loot_def anomalous_loot_def regular_loot_def shard_categories_def
      skin_shards_def shard_prices_def shard_step_def dict_get_def)

text \<open>
  C5 as amended. A non-owned \<open>SKIN\<close> record with \<open>count = 0\<close> anywhere in the feed does not
  make the computation raise; it is folded into its tier, which ends with 1 less in
  \<open>owned\<close> and 1 more in \<open>not_owned\<close> than the other \<open>SKIN\<close> records of the feed
  account for.
\<close>

theorem zero_count_folded:
  assumes "displayCategories r = ''SKIN''" and "itemStatus r \<noteq> ''OWNED''"
    and "loot_count r = 0"
  shows "\<exists>d. shard_categories (xs @ r # ys) = Inr d \<and>
           map_of d (loot_value r) =
             Some \<lparr>owned = owned_total (loot_value r) (skin_shards (xs @ ys)) - 1,
                   not_owned = not_owned_total (loot_value r) (skin_shards (xs @ ys)) + 1\<rparr>"
proof -
  let ?loot = "xs @ r # ys"
  let ?t = "loot_value r"
  from shard_categories_closed [of ?loot] obtain d where
    d: "shard_categories ?loot = Inr d" and
    look: "\<And>t. map_of d t =
        (if t \<in> set (shard_prices ?loot)
         then Some \<lparr>owned = owned_total t (skin_shards ?loot),
                    not_owned = not_owned_total t (skin_shards ?loot)\<rparr>
         else None)"
    by blast
  have split: "skin_shards ?loot = skin_shards xs @ r # skin_shards ys"
    using assms(1) by (simp add: skin_shards_def)
  have key: "?t \<in> set (shard_prices ?loot)"
    by (simp add: shard_prices_def split)
  have o: "owned_total ?t (skin_shards ?loot) = owned_total ?t (skin_shards (xs @ ys)) - 1"
    using assms
    by (simp add: split skin_shards_def owned_total_append owned_total_Cons)
  have n: "not_owned_total ?t (skin_shards ?loot) =
      not_owned_total ?t (skin_shards (xs @ ys)) + 1"
    using assms
    by (simp add: split skin_shards_def not_owned_total_append not_owned_total_Cons)
  show ?thesis
    using d look [of ?t] key o n by simp
qed

theorem zero_count_folded_witness:
  "\<exists>d. shard_categories anomalous_loot = Inr d \<and>
     map_of d 520 = Some \<lparr>owned = 2, not_owned = 1\<rparr>"
proof -
  let ?r = "\<lparr>displayCategories = ''SKIN'', itemStatus = ''NOT_OWNED'',
       disenchantRecipeName = Some ''SKIN_RENTAL_disenchant'',
       parentStoreItemId = 266, loot_value = 520, loot_count = 0\<rparr>"
  let ?xs = "[\<lparr>displayCategories = ''SKIN'', itemStatus = ''OWNED'', disenchantRecipeName = None,
       parentStoreItemId = 266, loot_value = 520, loot_count = 3\<rparr>]"
  have "displayCategories ?r = ''SKIN''" "itemStatus ?r \<noteq> ''OWNED''" "loot_count ?r = 0"
    by simp_all
  from zero_count_folded [OF this, of ?xs "[]"] show ?thesis
    by (simp add: anomalous_loot_def skin_shards_def owned_total_def not_owned_total_def)
qed

section \<open>Closed forms of the catalog normalisation and of the two joins\<close>

lemma collect_skins_filter: "collect_skins ss acc = acc @ filter (\<lambda>s. \<not> isBase s) ss"
  by (induction ss arbitrary: acc) auto

lemma set_dict_set: "set (dict_set d k v) \<subseteq> insert (k, v) (set d)"
  by (induction d k v rule: dict_set.induct) auto

lemma skins_loop_fresh:
  assumes "distinct (map key cs)" and "\<forall>c \<in> set cs. map_of d (key c) = None"
  shows "skins_loop cs d = d @ map (\<lambda>c. (key c, non_base c)) cs"
  using assms
proof (induction cs arbitrary: d)
  case Nil
  show ?case by simp
next
  case (Cons c cs)
  let ?d1 = "d @ [(key c, non_base c)]"
  have step: "dict_set d (key c) (collect_skins (skins c) []) = ?d1"
    using Cons.prems(2) by (simp add: dict_set_absent collect_skins_filter non_base_def)
  have "\<forall>x \<in> set cs. map_of ?d1 (key x) = None"
  proof
    fix x assume x: "x \<in> set cs"
    with Cons.prems(1) have "key x \<noteq> key c"
      by (force simp: image_iff)
    moreover from x Cons.prems(2) have "map_of d (key x) = None"
      by simp
    ultimately show "map_of ?d1 (key x) = None"
      by (simp add: map_add_def)
  qed
  moreover have "distinct (map key cs)"
    using Cons.prems(1) by simp
  ultimately have "skins_loop cs ?d1 = ?d1 @ map (\<lambda>c. (key c, non_base c)) cs"
    by (rule Cons.IH [rotated])
  then show ?case
    by (simp add: step)
qed

lemma catalog_keys_ok_fields:
  "catalog_keys_ok cj \<Longrightarrow> map key (map snd cj) = map fst cj"
  by (induction cj) (auto simp: catalog_keys_ok_def)

lemma get_skins_closed:
  assumes "catalog_keys_ok cj"
  shows "get_skins_by_champion_key cj = map (\<lambda>(k, c). (k, non_base c)) cj"
proof -
  have fields: "map key (map snd cj) = map fst cj"
    using assms by (rule catalog_keys_ok_fields)
  have "distinct (map key (map snd cj))"
    unfolding fields using assms by (simp add: catalog_keys_ok_def)
  then have "skins_loop (map snd cj) [] = [] @ map (\<lambda>c. (key c, non_base c)) (map snd cj)"
    by (rule skins_loop_fresh) simp
  also have "map (\<lambda>c. (key c, non_base c)) (map snd cj) = map (\<lambda>(k, c). (k, non_base c)) cj"
    using assms by (induction cj) (auto simp: catalog_keys_ok_def)
  finally show ?thesis
    by (simp add: get_skins_by_champion_key_def)
qed

lemma skins_loop_no_base:
  assumes "\<forall>(k, vs) \<in> set d. \<forall>v \<in> set vs. \<not> isBase v"
  shows "\<forall>(k, vs) \<in> set (skins_loop cs d). \<forall>v \<in> set vs. \<not> isBase v"
  using assms
proof (induction cs arbitrary: d)
  case Nil
  then show ?case by simp
next
  case (Cons c cs)
  let ?d1 = "dict_set d (key c) (collect_skins (skins c) [])"
  have "\<forall>(k, vs) \<in> set ?d1. \<forall>v \<in> set vs. \<not> isBase v"
  proof (clarify)
    fix k vs v
    assume in_d1: "(k, vs) \<in> set ?d1" and v: "v \<in> set vs" and base: "isBase v"
    from in_d1 set_dict_set [of d "key c" "collect_skins (skins c) []"]
    have "(k, vs) = (key c, collect_skins (skins c) []) \<or> (k, vs) \<in> set d"
      by blast
    then show False
    proof
      assume "(k, vs) = (key c, collect_skins (skins c) [])"
      with v base show False
        by (simp add: collect_skins_filter)
    next
      assume "(k, vs) \<in> set d"
      with Cons.prems v base show False
        by blast
    qed
  qed
  from Cons.IH [OF this] show ?case
    by simp
qed

lemma map_of_bump: "map_of (bump d k) = (map_of d)(k \<mapsto> get_or_zero d k + 1)"
  by (simp add: bump_def get_or_zero_def map_of_dict_set split: option.split)

lemma get_or_zero_Nil: "get_or_zero [] k = 0"
  by (simp add: get_or_zero_def)

lemma get_or_zero_bump:
  "get_or_zero (bump d k) j = get_or_zero d j + (if j = k then 1 else 0)"
  by (simp add: get_or_zero_def map_of_bump)

lemma unowned_loop_lookup:
  "map_of (unowned_loop loot d) i =
     (if filter (\<lambda>r. itemStatus r \<noteq> ''OWNED''
                 \<and> disenchantRecipeName r = Some ''SKIN_RENTAL_disenchant''
                 \<and> parentStoreItemId r = i) loot = []
      then map_of d i
      else Some (get_or_zero d i
             + int (length (filter (\<lambda>r. itemStatus r \<noteq> ''OWNED''
                 \<and> disenchantRecipeName r = Some ''SKIN_RENTAL_disenchant''
                 \<and> parentStoreItemId r = i) loot))))"
proof (induction loot arbitrary: d)
  case Nil
  show ?case by simp
next
  case (Cons r loot)
  show ?case
    by (simp add: Cons.IH map_of_bump get_or_zero_bump)
qed

lemma owned_inner_closed:
  assumes "map_of cj k = Some c"
  shows "\<exists>d'. owned_inner cj ids k ss d = Inr d' \<and>
           (\<forall>j. get_or_zero d' j =
              get_or_zero d j
              + (if j = champion_id c
                 then int (length (filter (\<lambda>s. skin_id s \<in> set ids) ss)) else 0))"
proof (induction ss arbitrary: d)
  case Nil
  show ?case by simp
next
  case (Cons s ss)
  show ?case
  proof (cases "skin_id s \<in> set ids")
    case True
    from Cons.IH [of "bump d (champion_id c)"] obtain d' where
      "owned_inner cj ids k ss (bump d (champion_id c)) = Inr d'"
      "\<And>j. get_or_zero d' j =
          get_or_zero (bump d (champion_id c)) j
          + (if j = champion_id c
             then int (length (filter (\<lambda>s. skin_id s \<in> set ids) ss)) else 0)"
      by blast
    then show ?thesis
      using True assms by (simp add: dict_get_def get_or_zero_bump)
  next
    case False
    from Cons.IH [of d] obtain d' where
      "owned_inner cj ids k ss d = Inr d'"
      "\<And>j. get_or_zero d' j =
          get_or_zero d j
          + (if j = champion_id c
             then int (length (filter (\<lambda>s. skin_id s \<in> set ids) ss)) else 0)"
      by blast
    then show ?thesis
      using False by simp
  qed
qed

lemma owned_outer_closed:
  assumes "\<forall>(k, c) \<in> set cs. map_of cj k = Some c"
  shows "\<exists>d'. owned_outer cj ids (map (\<lambda>(k, c). (k, non_base c)) cs) d = Inr d' \<and>
           (\<forall>j. get_or_zero d' j =
              get_or_zero d j
              + sum_list (map (\<lambda>(k, c). if champion_id c = j
                   then int (length (filter (\<lambda>s. skin_id s \<in> set ids) (non_base c)))
                   else 0) cs))"
  using assms
proof (induction cs arbitrary: d)
  case Nil
  show ?case by simp
next
  case (Cons e cs)
  obtain k c where e: "e = (k, c)"
    by (cases e)
  have "map_of cj k = Some c"
    using Cons.prems by (simp add: e)
  from owned_inner_closed [OF this, of ids "non_base c" d] obtain d1 where d1:
    "owned_inner cj ids k (non_base c) d = Inr d1"
    "\<And>j. get_or_zero d1 j =
        get_or_zero d j
        + (if j = champion_id c
           then int (length (filter (\<lambda>s. skin_id s \<in> set ids) (non_base c))) else 0)"
    by blast
  have "\<forall>(k, c) \<in> set cs. map_of cj k = Some c"
    using Cons.prems by simp
  from Cons.IH [OF this, of d1] obtain d' where d':
    "owned_outer cj ids (map (\<lambda>(k, c). (k, non_base c)) cs) d1 = Inr d'"
    "\<And>j. get_or_zero d' j =
        get_or_zero d1 j
        + sum_list (map (\<lambda>(k, c). if champion_id c = j
             then int (length (filter (\<lambda>s. skin_id s \<in> set ids) (non_base c)))
             else 0) cs)"
    by blast
  show ?case
    using d1(1) d'(1) by (auto simp: e d'(2) d1(2))
qed

lemma sum_list_single:
  assumes "distinct (map f xs)" and "x \<in> set xs"
  shows "sum_list (map (\<lambda>y. if f y = f x then g y else (0::int)) xs) = g x"
  using assms
proof (induction xs)
  case Nil
  then show ?case by simp
next
  case (Cons y ys)
  show ?case
  proof (cases "y = x")
    case True
    have "\<forall>z \<in> set ys. f z \<noteq> f x"
      using Cons.prems(1) True by (force simp: image_iff)
    then have "sum_list (map (\<lambda>y. if f y = f x then g y else 0) ys) = 0"
      by (induction ys) auto
    with True show ?thesis by simp
  next
    case False
    with Cons.prems have "x \<in> set ys" and "f y \<noteq> f x"
      by (auto simp: image_iff)
    with Cons show ?thesis by simp
  qed
qed

lemma catalog_keys_ok_lookup:
  "catalog_keys_ok cj \<Longrightarrow> \<forall>(k, c) \<in> set cj. map_of cj k = Some c"
  by (auto simp: catalog_keys_ok_def)

lemma rows_loop_closed:
  assumes "\<forall>(k, c) \<in> set cs. map_of cj k = Some c"
  shows "rows_loop cj un ow (map (\<lambda>(k, c). (k, non_base c)) cs) =
     Inr (map (\<lambda>(k, c). (name c, int (length (non_base c)),
                         get_or_zero un (champion_id c),
                         get_or_zero ow (champion_id c) + get_or_zero un (champion_id c))) cs)"
  using assms by (induction cs) (auto simp: dict_get_def)

lemma owned_inner_set:
  "set ids' = set ids \<Longrightarrow> owned_inner cj ids' k ss d = owned_inner cj ids k ss d"
  by (induction ss arbitrary: d) (simp_all split: sum.split)

lemma owned_outer_set:
  "set ids' = set ids \<Longrightarrow> owned_outer cj ids' es d = owned_outer cj ids es d"
proof (induction es arbitrary: d)
  case Nil
  show ?case by simp
next
  case (Cons e es)
  obtain k ss where "e = (k, ss)"
    by (cases e)
  with Cons show ?case
    by (simp add: owned_inner_set [of ids' ids] split: sum.split)
qed

lemma get_or_zero_unowned:
  "get_or_zero (get_unowned_shards_by_champion_id loot) i =
     int (length (filter (\<lambda>r. itemStatus r \<noteq> ''OWNED''
                 \<and> disenchantRecipeName r = Some ''SKIN_RENTAL_disenchant''
                 \<and> parentStoreItemId r = i) loot))"
  by (simp add: get_unowned_shards_by_champion_id_def get_or_zero_def unowned_loop_lookup)

lemma unowned_loop_append:
  "unowned_loop (xs @ ys) d = unowned_loop ys (unowned_loop xs d)"
  by (induction xs arbitrary: d) simp_all

section \<open>Claims about the loot classifier of the entity report\<close>

text \<open>
  C2 (entity-reconciliation counting). The unowned mapping holds, for a parent id \<open>i\<close>, the
  number of loot records with status other than \<open>OWNED\<close>, recipe tag
  \<open>SKIN_RENTAL_disenchant\<close> and \<open>parentStoreItemId = i\<close>, and has no entry for \<open>i\<close> when
  there is no such record. Each record counts 1 whatever its \<open>count\<close> field, and a record
  with another recipe tag (or with none) is not counted.
\<close>

theorem unowned_by_parent_id:
  "map_of (get_unowned_shards_by_champion_id loot) i =
     (if filter (\<lambda>r. itemStatus r \<noteq> ''OWNED''
                 \<and> disenchantRecipeName r = Some ''SKIN_RENTAL_disenchant''
                 \<and> parentStoreItemId r = i) loot = []
      then None
      else Some (int (length (filter (\<lambda>r. itemStatus r \<noteq> ''OWNED''
                 \<and> disenchantRecipeName r = Some ''SKIN_RENTAL_disenchant''
                 \<and> parentStoreItemId r = i) loot))))"
  by (simp add: get_unowned_shards_by_champion_id_def unowned_loop_lookup get_or_zero_def)

theorem unowned_by_parent_id_witness:
  "map_of (get_unowned_shards_by_champion_id example_loot) 103 = Some 1 \<and>
   map_of (get_unowned_shards_by_champion_id example_loot) 266 = Some 1 \<and>
   map_of (get_unowned_shards_by_champion_id example_loot) 0 = None"
  using unowned_by_parent_id [of example_loot 103] unowned_by_parent_id [of example_loot 266]
    unowned_by_parent_id [of example_loot 0]
  by (simp add: example_loot_def)

text \<open>
  C6 (scope filter). The claim says that a record whose display category is not \<open>SKIN\<close>
  contributes neither to the tier statistics nor to the unowned mapping. The second half
  fails: \<open>get_unowned_shards_by_champion_id\<close> never reads the display category. A
  \<open>CHAMPION\<close> record that is not owned and carries the recipe tag
  \<open>SKIN_RENTAL_disenchant\<close> is counted for its parent id, while the tier statistics
  leave it out.
\<close>

theorem scope_filter_counterexample:
  "map displayCategories foreign_loot = [''CHAMPION''] \<and>
   get_unowned_shards_by_champion_id foreign_loot = [(266, 1)] \<and>
   get_unowned_shards_by_champion_id [] = [] \<and>
   shard_categories foreign_loot = Inr []"
  by (simp add: foreign_loot_def get_unowned_shards_by_champion_id_def bump_def
      shard_categories_def skin_shards_def shard_prices_def)

text \<open>
  C6 as amended. A record whose display category is not \<open>SKIN\<close> is excluded from the tier
  statistics: the result is the one of the feed without it. The unowned mapping does not
  read the display category. Such a record, anywhere in the feed, adds exactly 1 to the
  count of its \<open>parentStoreItemId\<close> when its status is not \<open>OWNED\<close> and its recipe tag is
  \<open>SKIN_RENTAL_disenchant\<close>, and nothing otherwise; the counts of all other ids are those
  of the feed without it; and the whole mapping is the one obtained with the same record
  relabelled \<open>SKIN\<close>.
\<close>

theorem scope_filter:
  assumes "displayCategories r \<noteq> ''SKIN''"
  shows "shard_categories (xs @ r # ys) = shard_categories (xs @ ys) \<and>
         (\<forall>i. get_or_zero (get_unowned_shards_by_champion_id (xs @ r # ys)) i =
                get_or_zero (get_unowned_shards_by_champion_id (xs @ ys)) i
                + (if itemStatus r \<noteq> ''OWNED''
                      \<and> disenchantRecipeName r = Some ''SKIN_RENTAL_disenchant''
                      \<and> parentStoreItemId r = i
                   then 1 else 0)) \<and>
         get_unowned_shards_by_champion_id (xs @ r # ys) =
           get_unowned_shards_by_champion_id (xs @ r\<lparr>displayCategories := ''SKIN''\<rparr> # ys)"
proof (intro conjI allI)
  show "shard_categories (xs @ r # ys) = shard_categories (xs @ ys)"
    using assms by (simp add: shard_categories_def skin_shards_def shard_prices_def)
next
  fix i
  show "get_or_zero (get_unowned_shards_by_champion_id (xs @ r # ys)) i =
      get_or_zero (get_unowned_shards_by_champion_id (xs @ ys)) i
      + (if itemStatus r \<noteq> ''OWNED''
            \<and> disenchantRecipeName r = Some ''SKIN_RENTAL_disenchant''
            \<and> parentStoreItemId r = i
         then 1 else 0)"
    by (simp add: get_or_zero_unowned)
next
  show "get_unowned_shards_by_champion_id (xs @ r # ys) =
      get_unowned_shards_by_champion_id (xs @ r\<lparr>displayCategories := ''SKIN''\<rparr> # ys)"
    by (simp add: get_unowned_shards_by_champion_id_def unowned_loop_append)
qed

theorem scope_filter_witness:
  "shard_categories foreign_loot = shard_categories [] \<and>
   get_or_zero (get_unowned_shards_by_champion_id foreign_loot) 266 = 1 \<and>
   get_or_zero (get_unowned_shards_by_champion_id foreign_loot) 103 = 0 \<and>
   get_unowned_shards_by_champion_id foreign_loot =
     get_unowned_shards_by_champion_id
       [\<lparr>displayCategories = ''SKIN'', itemStatus = ''NOT_OWNED'',
         disenchantRecipeName = Some ''SKIN_RENTAL_disenchant'',
         parentStoreItemId = 266, loot_value = 520, loot_count = 1\<rparr>]"
proof -
  let ?r = "\<lparr>displayCategories = ''CHAMPION'', itemStatus = ''NOT_OWNED'',
       disenchantRecipeName = Some ''SKIN_RENTAL_disenchant'',
       parentStoreItemId = 266, loot_value = 520, loot_count = 1\<rparr>"
  have "displayCategories ?r \<noteq> ''SKIN''"
    by simp
  note all = scope_filter [OF this, of "[]" "[]"]
  have tiers: "shard_categories [?r] = shard_categories []"
    using all [THEN conjunct1] by simp
  have counts: "get_or_zero (get_unowned_shards_by_champion_id [?r]) i =
        get_or_zero (get_unowned_shards_by_champion_id []) i
        + (if itemStatus ?r \<noteq> ''OWNED''
              \<and> disenchantRecipeName ?r = Some ''SKIN_RENTAL_disenchant''
              \<and> parentStoreItemId ?r = i
           then 1 else 0)" for i
    using all [THEN conjunct2, THEN conjunct1, THEN spec, of i] by simp
  have relabel: "get_unowned_shards_by_champion_id [?r] =
        get_unowned_shards_by_champion_id [?r\<lparr>displayCategories := ''SKIN''\<rparr>]"
    using all [THEN conjunct2, THEN conjunct2] by simp
  have empty: "get_or_zero (get_unowned_shards_by_champion_id []) i = 0" for i
    by (simp add: get_unowned_shards_by_champion_id_def get_or_zero_def)
  have "get_or_zero (get_unowned_shards_by_champion_id [?r]) 266 = 1"
    unfolding counts empty by simp
  moreover have "get_or_zero (get_unowned_shards_by_champion_id [?r]) 103 = 0"
    unfolding counts empty by simp
  ultimately show ?thesis
    using tiers relabel by (simp add: foreign_loot_def)
qed

section \<open>Claims about the catalog normaliser, the ownership joiner and the report\<close>

text \<open>
  C7 (catalog normalisation). No list of the normalised catalog ever holds a skin with
  \<open>isBase\<close> true, wherever it stood among the champion's skins. For a catalog document
  (distinct string keys, each repeated by the champion's \<open>key\<close> field) the normalised
  catalog maps, in catalog order, each champion's string key to exactly its skins with
  \<open>isBase\<close> false, in their original relative order.
\<close>

theorem catalog_normalization:
  "(\<forall>(k, vs) \<in> set (get_skins_by_champion_key cj). \<forall>v \<in> set vs. \<not> isBase v) \<and>
   (catalog_keys_ok cj \<longrightarrow>
      get_skins_by_champion_key cj =
        map (\<lambda>(k, c). (k, filter (\<lambda>s. \<not> isBase s) (skins c))) cj)"
proof
  have "\<forall>(k, vs) \<in> set ([] :: (string, skin list) dict). \<forall>v \<in> set vs. \<not> isBase v"
    by simp
  from skins_loop_no_base [OF this, of "map snd cj"]
  show "\<forall>(k, vs) \<in> set (get_skins_by_champion_key cj). \<forall>v \<in> set vs. \<not> isBase v"
    by (simp add: get_skins_by_champion_key_def)
next
  show "catalog_keys_ok cj \<longrightarrow>
      get_skins_by_champion_key cj =
        map (\<lambda>(k, c). (k, filter (\<lambda>s. \<not> isBase s) (skins c))) cj"
    using get_skins_closed [of cj] by (simp add: non_base_def)
qed

theorem catalog_normalization_witness:
  "catalog_keys_ok example_catalog \<and>
   get_skins_by_champion_key example_catalog =
     [(''Aatrox'', [\<lparr>skin_id = 266001, isBase = False\<rparr>, \<lparr>skin_id = 266002, isBase = False\<rparr>]),
      (''Ahri'', [\<lparr>skin_id = 103001, isBase = False\<rparr>]),
      (''Zilean'', [])]"
proof -
  have ok: "catalog_keys_ok example_catalog"
    by (simp add: catalog_keys_ok_def example_catalog_def)
  with catalog_normalization [of example_catalog]
  have "get_skins_by_champion_key example_catalog =
        map (\<lambda>(k, c). (k, filter (\<lambda>s. \<not> isBase s) (skins c))) example_catalog"
    by blast
  then show ?thesis
    using ok by (simp add: example_catalog_def)
qed

text \<open>
  C4 (report completeness, order and defaults). For a catalog document the owned join does
  not raise and the report has exactly one row per catalog entity, in catalog order (which
  is the order of the normalised catalog). The row of an entity is its name, the number of
  its non-base skins, its unowned count and the sum of its owned and unowned counts, where
  an id absent from the owned or from the unowned mapping counts 0. No entity is left out,
  whatever its counts.
\<close>

theorem report_rows:
  assumes "catalog_keys_ok cj"
  shows "\<exists>owned_skins.
           get_owned_skins_by_champion_id (get_skins_by_champion_key cj) cj inventory
             = Inr owned_skins \<and>
           map fst (get_skins_by_champion_key cj) = map fst cj \<and>
           table_rows cj loot inventory =
             Inr (map (\<lambda>(k, c).
                    (name c,
                     int (length (filter (\<lambda>s. \<not> isBase s) (skins c))),
                     get_or_zero (get_unowned_shards_by_champion_id loot) (champion_id c),
                     get_or_zero owned_skins (champion_id c)
                       + get_or_zero (get_unowned_shards_by_champion_id loot) (champion_id c)))
                  cj)"
proof -
  have norm: "get_skins_by_champion_key cj = map (\<lambda>(k, c). (k, non_base c)) cj"
    using assms by (rule get_skins_closed)
  have look: "\<forall>(k, c) \<in> set cj. map_of cj k = Some c"
    using assms by (rule catalog_keys_ok_lookup)
  from owned_outer_closed [OF look, of "map itemId inventory" "[]"] obtain ow where
    ow: "get_owned_skins_by_champion_id (get_skins_by_champion_key cj) cj inventory = Inr ow"
    by (auto simp: get_owned_skins_by_champion_id_def norm)
  have keys: "map fst (get_skins_by_champion_key cj) = map fst cj"
    by (simp add: norm case_prod_unfold comp_def)
  have "table_rows cj loot inventory =
      rows_loop cj (get_unowned_shards_by_champion_id loot) ow (map (\<lambda>(k, c). (k, non_base c)) cj)"
    by (simp add: table_rows_def ow) (simp add: norm)
  also have "\<dots> =
      Inr (map (\<lambda>(k, c).
             (name c, int (length (non_base c)),
              get_or_zero (get_unowned_shards_by_champion_id loot) (champion_id c),
              get_or_zero ow (champion_id c)
                + get_or_zero (get_unowned_shards_by_champion_id loot) (champion_id c))) cj)"
    using look by (rule rows_loop_closed)
  finally show ?thesis
    using ow keys by (auto simp: non_base_def)
qed

theorem report_rows_witness:
  "catalog_keys_ok example_catalog \<and>
   table_rows example_catalog example_loot example_inventory =
     Inr [(''Aatrox'', 2, 1, 2), (''Ahri'', 1, 1, 1), (''Zilean'', 0, 0, 0)]"
proof -
  have ok: "catalog_keys_ok example_catalog"
    by (simp add: catalog_keys_ok_def example_catalog_def)
  from report_rows [OF ok, of example_inventory example_loot] obtain ow where
    ow: "get_owned_skins_by_champion_id (get_skins_by_champion_key example_catalog)
           example_catalog example_inventory = Inr ow" and
    rows: "table_rows example_catalog example_loot example_inventory =
             Inr (map (\<lambda>(k, c).
                    (name c,
                     int (length (filter (\<lambda>s. \<not> isBase s) (skins c))),
                     get_or_zero (get_unowned_shards_by_champion_id example_loot) (champion_id c),
                     get_or_zero ow (champion_id c)
                       + get_or_zero (get_unowned_shards_by_champion_id example_loot) (champion_id c)))
                  example_catalog)"
    by blast
  have "get_owned_skins_by_champion_id (get_skins_by_champion_key example_catalog)
           example_catalog example_inventory = Inr [(266, 1)]"
    by (simp add: get_owned_skins_by_champion_id_def get_skins_by_champion_key_def
        example_catalog_def example_inventory_def dict_get_def bump_def)
  with ow have ow_eq: "ow = [(266, 1)]"
    by simp
  have un: "get_unowned_shards_by_champion_id example_loot = [(266, 1), (103, 1)]"
    by (simp add: get_unowned_shards_by_champion_id_def example_loot_def bump_def)
  show ?thesis
    using ok rows by (simp add: ow_eq un example_catalog_def get_or_zero_def)
qed

text \<open>
  C8 (owned-count bound). For a catalog document whose champions also have distinct numeric
  ids, the owned join does not raise, and the owned count of every catalog entity is the
  number of its non-base skins whose id is among the owned item ids; so it is at most the
  number of its non-base skins.
\<close>

theorem owned_count_bound:
  assumes "catalog_keys_ok cj" and "catalog_ids_ok cj" and "(k, c) \<in> set cj"
  shows "\<exists>owned_skins.
           get_owned_skins_by_champion_id (get_skins_by_champion_key cj) cj inventory
             = Inr owned_skins \<and>
           get_or_zero owned_skins (champion_id c) =
             int (length (filter (\<lambda>s. \<not> isBase s \<and> skin_id s \<in> set (map itemId inventory))
                            (skins c))) \<and>
           get_or_zero owned_skins (champion_id c)
             \<le> int (length (filter (\<lambda>s. \<not> isBase s) (skins c)))"
proof -
  let ?ids = "map itemId inventory"
  let ?m = "\<lambda>e. int (length (filter (\<lambda>s. skin_id s \<in> set ?ids) (non_base (snd e))))"
  let ?f = "\<lambda>e :: string \<times> champion. champion_id (snd e)"
  have norm: "get_skins_by_champion_key cj = map (\<lambda>(k, c). (k, non_base c)) cj"
    using assms(1) by (rule get_skins_closed)
  have look: "\<forall>(k, c) \<in> set cj. map_of cj k = Some c"
    using assms(1) by (rule catalog_keys_ok_lookup)
  from owned_outer_closed [OF look, of ?ids "[]"] obtain ow where
    ow: "get_owned_skins_by_champion_id (get_skins_by_champion_key cj) cj inventory = Inr ow" and
    cnt: "\<And>j. get_or_zero ow j =
        get_or_zero [] j
        + sum_list (map (\<lambda>(k, c). if champion_id c = j
             then int (length (filter (\<lambda>s. skin_id s \<in> set ?ids) (non_base c)))
             else 0) cj)"
    by (auto simp: get_owned_skins_by_champion_id_def norm)
  have dist: "distinct (map ?f cj)"
    using assms(2) by (simp add: catalog_ids_ok_def case_prod_unfold)
  have "get_or_zero ow (champion_id c) =
      sum_list (map (\<lambda>e. if ?f e = ?f (k, c) then ?m e else 0) cj)"
    by (simp add: cnt get_or_zero_Nil case_prod_unfold)
  also have "\<dots> = ?m (k, c)"
    using dist assms(3) by (rule sum_list_single)
  finally have exact: "get_or_zero ow (champion_id c) =
      int (length (filter (\<lambda>s. \<not> isBase s \<and> skin_id s \<in> set ?ids) (skins c)))"
    by (simp add: non_base_def conj_commute)
  have "length (filter (\<lambda>s. \<not> isBase s \<and> skin_id s \<in> set ?ids) (skins c))
      \<le> length (filter (\<lambda>s. \<not> isBase s) (skins c))"
    using length_filter_le [of "\<lambda>s. skin_id s \<in> set ?ids" "filter (\<lambda>s. \<not> isBase s) (skins c)"]
    by (simp add: conj_commute)
  with exact ow show ?thesis
    by auto
qed

theorem owned_count_bound_witness:
  "catalog_keys_ok example_catalog \<and> catalog_ids_ok example_catalog \<and>
   (\<exists>owned_skins.
      get_owned_skins_by_champion_id (get_skins_by_champion_key example_catalog)
        example_catalog example_inventory = Inr owned_skins \<and>
      get_or_zero owned_skins 266 = 1 \<and> get_or_zero owned_skins 266 \<le> 2)"
proof -
  let ?c = "\<lparr>champion_id = 266, name = ''Aatrox'', key = ''Aatrox'',
         skins = [\<lparr>skin_id = 266000, isBase = True\<rparr>, \<lparr>skin_id = 266001, isBase = False\<rparr>,
                  \<lparr>skin_id = 266002, isBase = False\<rparr>]\<rparr>"
  have ok: "catalog_keys_ok example_catalog"
    by (simp add: catalog_keys_ok_def example_catalog_def)
  have ids: "catalog_ids_ok example_catalog"
    by (simp add: catalog_ids_ok_def example_catalog_def)
  have mem: "(''Aatrox'', ?c) \<in> set example_catalog"
    by (simp add: example_catalog_def)
  from owned_count_bound [OF ok ids mem, of example_inventory] show ?thesis
    using ok ids by (simp add: example_inventory_def)
qed

text \<open>
  C10 (duplicate-insensitivity of the ownership join). The owned join reads the owned-items
  list only through membership of a skin id in its item ids: two lists with the same set of
  item ids, such as a list and the same list without its duplicates, give the same result
  (the same mapping, or the same error), for any normalised catalog and catalog.
\<close>

theorem owned_join_duplicate_insensitive:
  assumes "set (map itemId inventory') = set (map itemId inventory)"
  shows "get_owned_skins_by_champion_id skins_by_key cj inventory' =
         get_owned_skins_by_champion_id skins_by_key cj inventory"
  using assms by (simp add: get_owned_skins_by_champion_id_def owned_outer_set)

theorem owned_join_duplicate_insensitive_witness:
  "get_owned_skins_by_champion_id (get_skins_by_champion_key example_catalog)
     example_catalog example_inventory_nodup =
   get_owned_skins_by_champion_id (get_skins_by_champion_key example_catalog)
     example_catalog example_inventory \<and>
   map itemId example_inventory = [266001, 999, 266001] \<and>
   map itemId example_inventory_nodup = remdups (map itemId example_inventory)"
proof -
  have "set (map itemId example_inventory_nodup) = set (map itemId example_inventory)"
    by (simp add: example_inventory_def example_inventory_nodup_def insert_commute)
  from owned_join_duplicate_insensitive [OF this] show ?thesis
    by (simp add: example_inventory_def example_inventory_nodup_def)
qed

section \<open>Remarks on the catalog's input contract\<close>

text \<open>
  The two conditions on the catalog are those of the data model, and the results above
  depend on them. When a champion's \<open>key\<close> field differs from its key in the document,
  the normalised catalog is keyed by the field and the lookup \<open>champ_json[champion_key]\<close>
  raises. When two champions carry the same numeric id, their owned skins are counted
  together, since the counters are keyed by that id.
\<close>

lemma table_rows_key_mismatch:
  "\<not> catalog_keys_ok mismatched_catalog \<and>
   table_rows mismatched_catalog [] [] = Inl KeyError"
  by (simp add: mismatched_catalog_def catalog_keys_ok_def table_rows_def
      get_skins_by_champion_key_def get_owned_skins_by_champion_id_def dict_get_def)

lemma owned_count_shared_id:
  "\<not> catalog_ids_ok shared_id_catalog \<and>
   get_owned_skins_by_champion_id (get_skins_by_champion_key shared_id_catalog)
     shared_id_catalog [\<lparr>itemId = 266001\<rparr>, \<lparr>itemId = 103001\<rparr>] = Inr [(266, 2)]"
  by (simp add: shared_id_catalog_def catalog_ids_ok_def get_skins_by_champion_key_def
      get_owned_skins_by_champion_id_def dict_get_def bump_def)

end
